theory Spec2Isabelle
  imports Complex_Main "HOL-Library.Sublist" "HOL-Library.AList"
begin

section \<open>Tables\<close>

text \<open>
  The program (\<^verbatim>\<open>src/app.py\<close>) works on pandas data frames read from spreadsheets.
  A cell of a frame is a string, a number (Python's \<^verbatim>\<open>int\<close> and \<^verbatim>\<open>float\<close> compare and hash
  alike, so one constructor stands for both), a time of day (\<^verbatim>\<open>datetime.time\<close>, with its
  \<^verbatim>\<open>hour\<close>, \<^verbatim>\<open>minute\<close> and \<^verbatim>\<open>second\<close>) or blank (\<^verbatim>\<open>NaN\<close>).
  Numbers are exact reals here; the source computes with binary floating point.
\<close>

datatype cell = Str string | Num real | Time nat nat nat | Blank

text \<open>
  \<^verbatim>\<open>==\<close> on cells, as pandas and numpy apply it element by element: a blank cell
  (\<^verbatim>\<open>NaN\<close>) equals nothing, not even itself.
\<close>

definition py_eq :: "cell \<Rightarrow> cell \<Rightarrow> bool" where
  "py_eq a b = (a = b \<and> a \<noteq> Blank)"

text \<open>The exceptions the modelled code can raise, with the key or attribute they name.\<close>

datatype error = KeyError cell | IndexError | AttributeError string

text \<open>
  The frames with a fixed set of columns are lists of records, one field per column:
  the courier round table (Round ID, Vehicle ID, Time, Location, Postcode, Task, Volume),
  the assigned journeys that \<^verbatim>\<open>assign_journeys\<close> builds (Index, Source Surgery, Source
  Postcode, Date of Specimen, Time of Specimen, Van Collecting, Time of Collection),
  the sample table and the vehicle routes (transit) table.
\<close>

record courier_entry =
  round_id :: cell
  vehicle_id :: cell
  c_time :: cell
  location :: cell
  postcode :: cell
  task :: cell
  volume :: real

record journey =
  j_index :: cell
  source_surgery :: cell
  source_postcode :: cell
  date_of_specimen :: cell
  time_of_specimen :: cell
  van_collecting :: cell
  time_of_collection :: real

record sample_row =
  s_index :: cell
  s_source_surgery :: cell
  s_source_postcode :: cell
  s_date_of_specimen :: cell
  s_time_of_specimen :: cell

record transit_row =
  t_postcode :: cell
  time_to_next_stop :: cell

section \<open>Step 3: update\_courier\_rounds\<close>

text \<open>
  \<^verbatim>\<open>
  def update_courier_rounds(courier_data, optimized_journeys, sample_data):
      for index, row in optimized_journeys.iterrows():
          if row['Source Postcode'] in courier_data['Postcode'].values:
              courier_stop = courier_data[courier_data['Postcode'] == row['Source Postcode']].iloc[0]
              if courier_stop['Task'] == 'Spare time' or courier_stop['Task'] == 'Deliver/Collect post':
                  sample_volume = 0.036
                  if courier_stop['Volume'] + sample_volume <= 5.3:
                      courier_data = courier_data.append({...}, ignore_index=True)
                      optimized_journeys.drop(index, inplace=True)
      return courier_data, optimized_journeys
  \<close>
  \<^verbatim>\<open>iterrows\<close> walks the rows the frame had when the loop started, each with its label;
  \<^verbatim>\<open>drop(index)\<close> removes from the frame the rows carrying that label. The journeys frame
  is the one \<^verbatim>\<open>pd.DataFrame(journeys)\<close> built, so its labels are 0, 1, 2, ... and a frame is
  a list of labelled rows. The membership test and the selection of \<^verbatim>\<open>courier_stop\<close> both
  compare the Postcode column with \<^verbatim>\<open>==\<close>, so together they are \<open>find\<close>: no match, or the
  first matching row of the table as it stands when the journey is visited.
  \<^verbatim>\<open>DataFrame.append\<close> (pandas before 2.0) returns the frame with the new row at its
  end. The Volume column holds numbers.
\<close>

definition sample_volume :: real where
  "sample_volume = 0.036"

definition drop_label :: "nat \<Rightarrow> (nat \<times> journey) list \<Rightarrow> (nat \<times> journey) list" where
  "drop_label index frame = filter (\<lambda>(l, r). l \<noteq> index) frame"

fun update_loop ::
  "courier_entry list \<Rightarrow> (nat \<times> journey) list \<Rightarrow> (nat \<times> journey) list
    \<Rightarrow> courier_entry list \<times> (nat \<times> journey) list" where
  "update_loop courier_data optimized_journeys [] = (courier_data, optimized_journeys)"
| "update_loop courier_data optimized_journeys ((index, row) # rest) =
     (case find (\<lambda>c. py_eq (postcode c) (source_postcode row)) courier_data of
        None \<Rightarrow> update_loop courier_data optimized_journeys rest
      | Some courier_stop \<Rightarrow>
          if task courier_stop = Str ''Spare time''
             \<or> task courier_stop = Str ''Deliver/Collect post''
          then
            if volume courier_stop + sample_volume \<le> 5.3
            then update_loop
                   (courier_data @
                     [\<lparr>round_id = round_id courier_stop,
                       vehicle_id = vehicle_id courier_stop,
                       c_time = time_of_specimen row,
                       location = source_surgery row,
                       postcode = source_postcode row,
                       task = Str ''Collect samples'',
                       volume = sample_volume\<rparr>])
                   (drop_label index optimized_journeys) rest
            else update_loop courier_data optimized_journeys rest
          else update_loop courier_data optimized_journeys rest)"

definition update_courier_rounds ::
  "courier_entry list \<Rightarrow> journey list \<Rightarrow> sample_row list
    \<Rightarrow> courier_entry list \<times> journey list" where
  "update_courier_rounds courier_data optimized_journeys sample_data =
     (let frame = zip [0..<length optimized_journeys] optimized_journeys;
          (courier_data', frame') = update_loop courier_data frame frame
      in (courier_data', map snd frame'))"

text \<open>
  What the specification says of one journey, against the courier table as it was
  supplied: the first entry with the journey's postcode decides; when its task is
  "Spare time" or "Deliver/Collect post" and its volume plus 0.036 is at most 5.3, the
  journey is folded in as a new "Collect samples" entry of volume 0.036 that carries the
  journey's time and location fields and the matched entry's round and vehicle.
\<close>

definition spec_fold_in :: "courier_entry list \<Rightarrow> journey \<Rightarrow> courier_entry option" where
  "spec_fold_in table row =
     (case find (\<lambda>c. py_eq (postcode c) (source_postcode row)) table of
        None \<Rightarrow> None
      | Some m \<Rightarrow>
          if (task m = Str ''Spare time'' \<or> task m = Str ''Deliver/Collect post'')
             \<and> volume m + 0.036 \<le> 5.3
          then Some \<lparr>round_id = round_id m, vehicle_id = vehicle_id m,
                     c_time = time_of_specimen row, location = source_surgery row,
                     postcode = source_postcode row, task = Str ''Collect samples'',
                     volume = 0.036\<rparr>
          else None)"

text \<open>The total volume of the entries of one round and vehicle.\<close>

definition round_volume :: "courier_entry list \<Rightarrow> cell \<Rightarrow> cell \<Rightarrow> real" where
  "round_volume table r v =
     sum_list (map volume (filter (\<lambda>c. round_id c = r \<and> vehicle_id c = v) table))"

section \<open>Step 4: calculate\_total\_time\<close>

text \<open>
  \<^verbatim>\<open>
  def calculate_total_time(optimized_journeys, vehicle_routes_data):
      total_time = timedelta()
      for _, route_row in optimized_journeys.iterrows():
          time_to_next_stop = timedelta(
              hours=route_row['Time to Next Stop'].hour,
              minutes=route_row['Time to Next Stop'].minute,
              seconds=route_row['Time to Next Stop'].second)
          total_time += time_to_next_stop
      return total_time
  \<close>
  The function looks a column up by name in each row of the frame it is given, so here
  a row is the list of its columns with their cells: a missing column is a
  \<^verbatim>\<open>KeyError\<close>, and a cell that is no time of day has no attribute \<^verbatim>\<open>hour\<close>. A
  \<^verbatim>\<open>timedelta\<close> is a whole number of seconds (the microseconds of a time of day are not
  read; its bound of 999999999 days is out of reach of a sum of times of day and is not
  modelled). The second parameter is never used.
\<close>

type_synonym row = "(string \<times> cell) list"

definition timedelta :: "nat \<Rightarrow> nat \<Rightarrow> nat \<Rightarrow> int" where
  "timedelta hours minutes seconds = int hours * 3600 + int minutes * 60 + int seconds"

fun total_time_loop :: "int \<Rightarrow> row list \<Rightarrow> error + int" where
  "total_time_loop total_time [] = Inr total_time"
| "total_time_loop total_time (route_row # rest) =
     (case map_of route_row ''Time to Next Stop'' of
        None \<Rightarrow> Inl (KeyError (Str ''Time to Next Stop''))
      | Some (Time h m s) \<Rightarrow> total_time_loop (total_time + timedelta h m s) rest
      | Some _ \<Rightarrow> Inl (AttributeError ''hour''))"

definition calculate_total_time :: "row list \<Rightarrow> transit_row list \<Rightarrow> error + int" where
  "calculate_total_time optimized_journeys vehicle_routes_data =
     total_time_loop 0 optimized_journeys"

text \<open>
  The rows of the journeys frame, with the columns \<^verbatim>\<open>assign_journeys\<close> gives it: this is
  the frame that \<^verbatim>\<open>main\<close> passes from \<^verbatim>\<open>update_courier_rounds\<close> to
  \<^verbatim>\<open>calculate_total_time\<close>.
\<close>

definition journey_row :: "journey \<Rightarrow> row" where
  "journey_row j =
     [(''Index'', j_index j), (''Source Surgery'', source_surgery j),
      (''Source Postcode'', source_postcode j), (''Date of Specimen'', date_of_specimen j),
      (''Time of Specimen'', time_of_specimen j), (''Van Collecting'', van_collecting j),
      (''Time of Collection'', Num (time_of_collection j))]"

text \<open>The seconds of a duration cell; a cell that is no time of day counts for nothing.\<close>

fun seconds_of :: "cell \<Rightarrow> int" where
  "seconds_of (Time h m s) = timedelta h m s"
| "seconds_of _ = 0"

section \<open>Step 2: assign\_journeys\<close>

subsection \<open>The transit graph\<close>

text \<open>
  \<^verbatim>\<open>
  G = nx.DiGraph()
  for index, row in vehicle_routes_data.iterrows():
      if index < len(vehicle_routes_data) - 1:
          next_row = vehicle_routes_data.iloc[index + 1]
          next_stop = next_row['Postcode']
          G.add_edge(row['Postcode'], next_stop, weight=row['Time to Next Stop'])
  \<close>
  A networkx \<^verbatim>\<open>DiGraph\<close> keeps its nodes in insertion order and, for each edge, its
  attributes; \<^verbatim>\<open>add_edge\<close> adds the two nodes when they are new and sets the weight,
  overwriting the weight of an edge that exists. Every row but the last adds the edge
  to the next row; the weight is the row's cell as it is. Nodes are told apart by the
  equality of their cells; a blank postcode therefore counts as one node, as it does in
  a column of objects, where every blank is the same \<^verbatim>\<open>NaN\<close> object.
\<close>

record digraph =
  g_nodes :: "cell list"
  g_edges :: "((cell \<times> cell) \<times> cell) list"

definition add_node :: "cell \<Rightarrow> cell list \<Rightarrow> cell list" where
  "add_node v ns = (if v \<in> set ns then ns else ns @ [v])"

definition add_edge :: "digraph \<Rightarrow> cell \<Rightarrow> cell \<Rightarrow> cell \<Rightarrow> digraph" where
  "add_edge G u v weight =
     \<lparr>g_nodes = add_node v (add_node u (g_nodes G)),
      g_edges = AList.update (u, v) weight (g_edges G)\<rparr>"

fun build_loop :: "transit_row list \<Rightarrow> digraph \<Rightarrow> digraph" where
  "build_loop (row # next_row # rest) G =
     build_loop (next_row # rest)
       (add_edge G (t_postcode row) (t_postcode next_row) (time_to_next_stop row))"
| "build_loop rows G = G"

definition build_graph :: "transit_row list \<Rightarrow> digraph" where
  "build_graph vehicle_routes_data =
     build_loop vehicle_routes_data \<lparr>g_nodes = [], g_edges = []\<rparr>"

subsection \<open>The routing library\<close>

text \<open>
  OR-Tools is outside the repository. The model takes what the code asks of it as a
  parameter: \<^verbatim>\<open>RoutingIndexManager(len(G), num_vans, 0)\<close> with
  \<^verbatim>\<open>RoutingModel(manager)\<close> gives \<^verbatim>\<open>manager.IndexToNode\<close>, \<^verbatim>\<open>routing.Start\<close> and
  \<^verbatim>\<open>routing.IsEnd\<close>; \<^verbatim>\<open>routing.SolveWithParameters\<close>, which may call the registered
  transit callback, returns \<^verbatim>\<open>None\<close> or a solution, read only through
  \<^verbatim>\<open>solution.Value(routing.NextVar(index))\<close>, the index that follows \<^verbatim>\<open>index\<close>.
\<close>

record routing =
  IndexToNode :: "nat \<Rightarrow> nat"
  Start :: "nat \<Rightarrow> nat"
  IsEnd :: "nat \<Rightarrow> bool"
  SolveWithParameters :: "(nat \<Rightarrow> nat \<Rightarrow> error + cell) \<Rightarrow> (nat \<Rightarrow> nat) option"

type_synonym ortools = "nat \<Rightarrow> nat \<Rightarrow> routing"

text \<open>
  \<^verbatim>\<open>
  def distance_callback(from_index, to_index):
      from_node = manager.IndexToNode(from_index)
      to_node = manager.IndexToNode(to_index)
      return G[from_node][to_node]['weight']
  \<close>
  \<^verbatim>\<open>G[from_node]\<close> raises \<^verbatim>\<open>KeyError\<close> when the graph has no such node, and
  \<^verbatim>\<open>G[from_node][to_node]\<close> when it has no such edge. The nodes of the graph are the
  cells of the Postcode column; the callback asks for node numbers.
\<close>

definition distance_callback ::
  "(nat \<Rightarrow> nat) \<Rightarrow> digraph \<Rightarrow> nat \<Rightarrow> nat \<Rightarrow> error + cell" where
  "distance_callback index_to_node G from_index to_index =
     (let from_node = Num (real (index_to_node from_index));
          to_node = Num (real (index_to_node to_index))
      in if from_node \<notin> set (g_nodes G) then Inl (KeyError from_node)
         else case map_of (g_edges G) (from_node, to_node) of
                None \<Rightarrow> Inl (KeyError to_node)
              | Some weight \<Rightarrow> Inr weight)"

subsection \<open>Extracting the journeys\<close>

text \<open>
  \<^verbatim>\<open>
  for van_index in range(num_vans):
      index = routing.Start(van_index)
      total_time = timedelta()
      while not routing.IsEnd(index):
          node = manager.IndexToNode(index)
          if node != 0:
              journey_data = sample_data.iloc[node - 1]
              journeys[...].append(...)                       # six columns
              time_to_next_stop = timedelta(
                  hours=vehicle_routes_data.iloc[node - 1]['Time to Next Stop'].hour, ...)
              total_time += time_to_next_stop
              journeys['Time of Collection'].append(total_time.total_seconds() / 3600)
          index = solution.Value(routing.NextVar(index))
  \<close>
  \<^verbatim>\<open>iloc\<close> raises \<^verbatim>\<open>IndexError\<close> past the end of a frame (\<^verbatim>\<open>node - 1\<close> is never negative
  here). The van's label is \<^verbatim>\<open>f'Van {van_index + 1}'\<close>, and
  \<^verbatim>\<open>total_time.total_seconds() / 3600\<close> is the accumulated time in hours.
\<close>

definition iloc :: "'a list \<Rightarrow> nat \<Rightarrow> error + 'a" where
  "iloc frame i = (if i < length frame then Inr (frame ! i) else Inl IndexError)"

definition digit :: "nat \<Rightarrow> char" where
  "digit d = char_of (48 + d)"

fun string_of_nat :: "nat \<Rightarrow> string" where
  "string_of_nat n =
     (if n < 10 then [digit n] else string_of_nat (n div 10) @ [digit (n mod 10)])"

declare string_of_nat.simps [simp del]

definition hours :: "int \<Rightarrow> real" where
  "hours total_time = real_of_int total_time / 3600"

definition visit ::
  "sample_row list \<Rightarrow> transit_row list \<Rightarrow> nat \<Rightarrow> nat \<Rightarrow> int \<Rightarrow> error + (int \<times> journey)" where
  "visit sample_data vehicle_routes_data van_index node total_time =
     (case iloc sample_data (node - 1) of
        Inl e \<Rightarrow> Inl e
      | Inr journey_data \<Rightarrow>
          (case iloc vehicle_routes_data (node - 1) of
             Inl e \<Rightarrow> Inl e
           | Inr route_row \<Rightarrow>
               (case time_to_next_stop route_row of
                  Time h m s \<Rightarrow>
                    (let total_time' = total_time + timedelta h m s
                     in Inr (total_time',
                          \<lparr>j_index = s_index journey_data,
                           source_surgery = s_source_surgery journey_data,
                           source_postcode = s_source_postcode journey_data,
                           date_of_specimen = s_date_of_specimen journey_data,
                           time_of_specimen = s_time_of_specimen journey_data,
                           van_collecting = Str (''Van '' @ string_of_nat (van_index + 1)),
                           time_of_collection = hours total_time'\<rparr>))
                | _ \<Rightarrow> Inl (AttributeError ''hour''))))"

text \<open>
  The \<^verbatim>\<open>while\<close> loop of one van. It ends when the solver's successor function reaches
  an end index; the result is \<open>None\<close> when it never does. With no solution
  (\<^verbatim>\<open>solution\<close> is \<^verbatim>\<open>None\<close>), \<^verbatim>\<open>solution.Value\<close> raises \<^verbatim>\<open>AttributeError\<close>.
\<close>

partial_function (option) walk_route ::
  "routing \<Rightarrow> (nat \<Rightarrow> nat) option \<Rightarrow> sample_row list \<Rightarrow> transit_row list \<Rightarrow> nat
    \<Rightarrow> nat \<Rightarrow> int \<Rightarrow> journey list \<Rightarrow> (error + journey list) option" where
  "walk_route routing solution sample_data vehicle_routes_data van_index index total_time journeys =
     (if IsEnd routing index then Some (Inr journeys)
      else
        let node = IndexToNode routing index in
        if node \<noteq> 0 then
          (case visit sample_data vehicle_routes_data van_index node total_time of
             Inl e \<Rightarrow> Some (Inl e)
           | Inr (total_time', j) \<Rightarrow>
               (case solution of
                  None \<Rightarrow> Some (Inl (AttributeError ''Value''))
                | Some next_var \<Rightarrow>
                    walk_route routing solution sample_data vehicle_routes_data van_index
                      (next_var index) total_time' (journeys @ [j])))
        else
          (case solution of
             None \<Rightarrow> Some (Inl (AttributeError ''Value''))
           | Some next_var \<Rightarrow>
               walk_route routing solution sample_data vehicle_routes_data van_index
                 (next_var index) total_time journeys))"

fun vans_loop ::
  "routing \<Rightarrow> (nat \<Rightarrow> nat) option \<Rightarrow> sample_row list \<Rightarrow> transit_row list \<Rightarrow> nat list
    \<Rightarrow> journey list \<Rightarrow> (error + journey list) option" where
  "vans_loop routing solution sample_data vehicle_routes_data [] journeys = Some (Inr journeys)"
| "vans_loop routing solution sample_data vehicle_routes_data (van_index # vans) journeys =
     (case walk_route routing solution sample_data vehicle_routes_data van_index
             (Start routing van_index) 0 journeys of
        None \<Rightarrow> None
      | Some (Inl e) \<Rightarrow> Some (Inl e)
      | Some (Inr journeys') \<Rightarrow>
          vans_loop routing solution sample_data vehicle_routes_data vans journeys')"

definition assign_journeys ::
  "ortools \<Rightarrow> sample_row list \<Rightarrow> transit_row list \<Rightarrow> nat \<Rightarrow> (error + journey list) option" where
  "assign_journeys ortools sample_data vehicle_routes_data num_vans =
     (let G = build_graph vehicle_routes_data;
          routing = ortools (length (g_nodes G)) num_vans;
          solution = SolveWithParameters routing (distance_callback (IndexToNode routing) G)
      in vans_loop routing solution sample_data vehicle_routes_data [0..<num_vans] [])"

section \<open>Notions used to state the properties\<close>

text \<open>
  The courier table during the loop is the supplied table followed by the entries
  appended so far; each appended entry repeats the postcode of an entry of the supplied
  table.
\<close>

definition grown :: "courier_entry list \<Rightarrow> courier_entry list \<Rightarrow> bool" where
  "grown table extra =
     (\<forall>e \<in> set extra. \<exists>c \<in> set table. py_eq (postcode c) (postcode e))"

text \<open>The edges that the rows of a transit table ask for, in order.\<close>

fun chain_edges :: "transit_row list \<Rightarrow> ((cell \<times> cell) \<times> cell) list" where
  "chain_edges (row # next_row # rest) =
     ((t_postcode row, t_postcode next_row), time_to_next_stop row) # chain_edges (next_row # rest)"
| "chain_edges rows = []"

text \<open>
  A finite route: the indices that the successor function visits from \<open>index\<close>, in
  order, up to the first end index, which is not part of the list.
\<close>

fun on_route :: "routing \<Rightarrow> (nat \<Rightarrow> nat) \<Rightarrow> nat \<Rightarrow> nat list \<Rightarrow> bool" where
  "on_route routing next_var index [] = IsEnd routing index"
| "on_route routing next_var index (i # rest) =
     (i = index \<and> \<not> IsEnd routing index \<and> on_route routing next_var (next_var index) rest)"

text \<open>The body of the \<^verbatim>\<open>while\<close> loop, applied to the nodes of a route one after another.\<close>

fun visit_all ::
  "sample_row list \<Rightarrow> transit_row list \<Rightarrow> nat \<Rightarrow> int \<Rightarrow> journey list \<Rightarrow> nat list
    \<Rightarrow> error + journey list" where
  "visit_all sample_data vehicle_routes_data van_index total_time journeys [] = Inr journeys"
| "visit_all sample_data vehicle_routes_data van_index total_time journeys (node # nodes) =
     (case visit sample_data vehicle_routes_data van_index node total_time of
        Inl e \<Rightarrow> Inl e
      | Inr (total_time', j) \<Rightarrow>
          visit_all sample_data vehicle_routes_data van_index total_time' (journeys @ [j]) nodes)"

text \<open>
  The collection times along a route, in hours, when each visited node \<open>n\<close> adds the
  duration of row \<open>n - 1\<close> of the transit table, the stop before it in the input order.
\<close>

fun chain_times :: "transit_row list \<Rightarrow> int \<Rightarrow> nat list \<Rightarrow> real list" where
  "chain_times vehicle_routes_data clock [] = []"
| "chain_times vehicle_routes_data clock (node # nodes) =
     (let clock' = clock + seconds_of (time_to_next_stop (vehicle_routes_data ! (node - 1)))
      in hours clock' # chain_times vehicle_routes_data clock' nodes)"

text \<open>
  The collection times as the specification words them: each visited node adds the
  duration recorded for the stop just departed, which is the depot (row 0) at the first
  visit and the node visited before at the later ones.
\<close>

fun spec_times :: "transit_row list \<Rightarrow> int \<Rightarrow> nat \<Rightarrow> nat list \<Rightarrow> real list" where
  "spec_times vehicle_routes_data clock departed [] = []"
| "spec_times vehicle_routes_data clock departed (node # nodes) =
     (let clock' = clock + seconds_of (time_to_next_stop (vehicle_routes_data ! departed))
      in hours clock' # spec_times vehicle_routes_data clock' node nodes)"

section \<open>Concrete inputs\<close>

text \<open>
  A courier entry of round R1 and vehicle V1 at postcode SO15 5SY with spare time, a
  journey, and the entry that folding this journey into that round appends.
\<close>

definition ex_entry :: "real \<Rightarrow> courier_entry" where
  "ex_entry v =
     \<lparr>round_id = Str ''R1'', vehicle_id = Str ''V1'', c_time = Time 9 0 0,
      location = Str ''Shirley Health Centre'', postcode = Str ''SO15 5SY'',
      task = Str ''Spare time'', volume = v\<rparr>"

definition ex_journey :: "string \<Rightarrow> string \<Rightarrow> journey" where
  "ex_journey i pc =
     \<lparr>j_index = Str i, source_surgery = Str ''Surgery'', source_postcode = Str pc,
      date_of_specimen = Str ''2023-05-02'', time_of_specimen = Time 10 30 0,
      van_collecting = Str ''Van 1'', time_of_collection = 0.25\<rparr>"

definition ex_collected :: courier_entry where
  "ex_collected =
     \<lparr>round_id = Str ''R1'', vehicle_id = Str ''V1'', c_time = Time 10 30 0,
      location = Str ''Surgery'', postcode = Str ''SO15 5SY'',
      task = Str ''Collect samples'', volume = 0.036\<rparr>"

text \<open>
  Transit tables of four stops with the durations 0:10, 0:15, 0:05 and none; the same
  with the first duration blank; one that visits two postcodes twice and has a blank
  duration on its third stop; and one whose postcodes are the numbers 0, 1, 2.
\<close>

definition ex_stop :: "cell \<Rightarrow> cell \<Rightarrow> transit_row" where
  "ex_stop p d = \<lparr>t_postcode = p, time_to_next_stop = d\<rparr>"

definition ex_transit :: "transit_row list" where
  "ex_transit =
     [ex_stop (Str ''SO16 6YD'') (Time 0 10 0), ex_stop (Str ''SO15 5SY'') (Time 0 15 0),
      ex_stop (Str ''SO14 0YG'') (Time 0 5 0), ex_stop (Str ''SO17 1BJ'') Blank]"

definition ex_transit_blank :: "transit_row list" where
  "ex_transit_blank =
     [ex_stop (Str ''SO16 6YD'') Blank, ex_stop (Str ''SO15 5SY'') (Time 0 15 0),
      ex_stop (Str ''SO14 0YG'') (Time 0 5 0), ex_stop (Str ''SO17 1BJ'') Blank]"

definition ex_transit_repeat :: "transit_row list" where
  "ex_transit_repeat =
     [ex_stop (Str ''SO16 6YD'') (Time 0 10 0), ex_stop (Str ''SO15 5SY'') (Time 0 15 0),
      ex_stop (Str ''SO16 6YD'') Blank, ex_stop (Str ''SO15 5SY'') Blank]"


text \<open>Three samples, and the journey assigned for one of them.\<close>

definition ex_sample :: "string \<Rightarrow> sample_row" where
  "ex_sample i =
     \<lparr>s_index = Str i, s_source_surgery = Str ''Surgery'', s_source_postcode = Str ''SO15 5SY'',
      s_date_of_specimen = Str ''2023-05-02'', s_time_of_specimen = Time 10 30 0\<rparr>"

definition ex_samples :: "sample_row list" where
  "ex_samples = [ex_sample ''S1'', ex_sample ''S2'', ex_sample ''S3'']"

definition ex_assigned :: "string \<Rightarrow> string \<Rightarrow> real \<Rightarrow> journey" where
  "ex_assigned i van t =
     \<lparr>j_index = Str i, source_surgery = Str ''Surgery'', source_postcode = Str ''SO15 5SY'',
      date_of_specimen = Str ''2023-05-02'', time_of_specimen = Time 10 30 0,
      van_collecting = Str van, time_of_collection = t\<rparr>"

text \<open>
  A routing model laid out as OR-Tools lays out a single depot: index \<open>i\<close> below the
  number of nodes is node \<open>i\<close>, index 0 starts van 0, the indices after the nodes start
  the other vans and then end the routes. With four nodes and two vans the successor
  function below sends van 0 along 0, 1, 2 to its end 5 and van 1 along 4 (the depot), 3
  to its end 6.
\<close>

definition ex_next :: "nat \<Rightarrow> nat" where
  "ex_next i = (if i = 0 then 1 else if i = 1 then 2 else if i = 2 then 5
                else if i = 4 then 3 else 6)"

definition ex_routing :: "(nat \<Rightarrow> nat) option \<Rightarrow> ortools" where
  "ex_routing solution num_nodes num_vans =
     \<lparr>IndexToNode = (\<lambda>i. if i < num_nodes then i else 0),
      Start = (\<lambda>v. if v = 0 then 0 else num_nodes + v - 1),
      IsEnd = (\<lambda>i. num_nodes + num_vans - 1 \<le> i),
      SolveWithParameters = (\<lambda>callback. solution)\<rparr>"

section \<open>Properties of update\_courier\_rounds\<close>

text \<open>
  An appended entry never becomes the first match of a postcode: it repeats a postcode
  that an entry of the supplied table already has.
\<close>

lemma find_append_eq:
  "find P (xs @ ys) = (case find P xs of None \<Rightarrow> find P ys | Some x \<Rightarrow> Some x)"
  by (induction xs) auto

lemma find_grown:
  assumes "grown table extra"
  shows "find (\<lambda>c. py_eq (postcode c) p) (table @ extra)
           = find (\<lambda>c. py_eq (postcode c) p) table"
proof (cases "find (\<lambda>c. py_eq (postcode c) p) table")
  case (Some c)
  then show ?thesis by (simp add: find_append_eq)
next
  case None
  then have no: "\<And>c. c \<in> set table \<Longrightarrow> \<not> py_eq (postcode c) p"
    by (auto simp: find_None_iff)
  have "\<not> py_eq (postcode e) p" if "e \<in> set extra" for e
  proof
    assume "py_eq (postcode e) p"
    moreover from assms that obtain c where "c \<in> set table" "py_eq (postcode c) (postcode e)"
      by (auto simp: grown_def)
    ultimately have "c \<in> set table" "py_eq (postcode c) p"
      by (auto simp: py_eq_def)
    with no show False by blast
  qed
  then have "find (\<lambda>c. py_eq (postcode c) p) extra = None"
    by (auto simp: find_None_iff)
  with None show ?thesis by (simp add: find_append_eq)
qed

lemma spec_fold_in_postcode:
  "spec_fold_in table row = Some e \<Longrightarrow>
     \<exists>c \<in> set table. py_eq (postcode c) (postcode e)"
  by (auto simp: spec_fold_in_def find_Some_iff split: option.splits if_splits)

lemma update_loop_char:
  "grown table extra \<Longrightarrow>
   update_loop (table @ extra) frame rest =
     (table @ extra @ List.map_filter (spec_fold_in table) (map snd rest),
      filter (\<lambda>(l, r). l \<notin> fst ` {x \<in> set rest. spec_fold_in table (snd x) \<noteq> None}) frame)"
proof (induction rest arbitrary: extra frame)
  case Nil
  then show ?case by simp
next
  case (Cons x rest)
  obtain index row where x: "x = (index, row)" by (cases x)
  let ?f = "find (\<lambda>c. py_eq (postcode c) (source_postcode row)) table"
  have f: "find (\<lambda>c. py_eq (postcode c) (source_postcode row)) (table @ extra) = ?f"
    using Cons.prems by (rule find_grown)
  show ?case
  proof (cases "spec_fold_in table row")
    case None
    then have "update_loop (table @ extra) frame (x # rest) = update_loop (table @ extra) frame rest"
      by (auto simp: x f spec_fold_in_def sample_volume_def split: option.splits if_splits)
    also have "\<dots> = (table @ extra @ List.map_filter (spec_fold_in table) (map snd rest),
      filter (\<lambda>(l, r). l \<notin> fst ` {x \<in> set rest. spec_fold_in table (snd x) \<noteq> None}) frame)"
      using Cons.prems by (rule Cons.IH)
    also have "\<dots> = (table @ extra @ List.map_filter (spec_fold_in table) (map snd (x # rest)),
      filter (\<lambda>(l, r). l \<notin> fst ` {y \<in> set (x # rest). spec_fold_in table (snd y) \<noteq> None}) frame)"
      using None by (auto simp: x intro!: filter_cong)
    finally show ?thesis .
  next
    case (Some e)
    have g: "grown table (extra @ [e])"
      using Cons.prems spec_fold_in_postcode[OF Some] by (auto simp: grown_def)
    from Some have "update_loop (table @ extra) frame (x # rest)
        = update_loop (table @ (extra @ [e])) (drop_label index frame) rest"
      by (auto simp: x f spec_fold_in_def sample_volume_def split: option.splits if_splits)
    also have "\<dots> = (table @ (extra @ [e]) @ List.map_filter (spec_fold_in table) (map snd rest),
      filter (\<lambda>(l, r). l \<notin> fst ` {x \<in> set rest. spec_fold_in table (snd x) \<noteq> None}) (drop_label index frame))"
      using g by (rule Cons.IH)
    also have "\<dots> = (table @ extra @ List.map_filter (spec_fold_in table) (map snd (x # rest)),
      filter (\<lambda>(l, r). l \<notin> fst ` {y \<in> set (x # rest). spec_fold_in table (snd y) \<noteq> None}) frame)"
    proof -
      have "fst ` {y \<in> set (x # rest). spec_fold_in table (snd y) \<noteq> None}
          = insert index (fst ` {y \<in> set rest. spec_fold_in table (snd y) \<noteq> None})"
      proof -
        have "{y \<in> set (x # rest). spec_fold_in table (snd y) \<noteq> None}
            = insert (index, row) {y \<in> set rest. spec_fold_in table (snd y) \<noteq> None}"
          using Some by (auto simp: x)
        then show ?thesis by simp
      qed
      then show ?thesis
        using Some by (simp add: x drop_label_def case_prod_unfold conj_commute)
    qed
    finally show ?thesis .
  qed
qed

lemma filter_labelled:
  "distinct (map fst frame) \<Longrightarrow>
   filter (\<lambda>(l, r). l \<notin> fst ` {x \<in> set frame. Q (snd x)}) frame
     = filter (\<lambda>(l, r). \<not> Q r) frame"
  by (rule filter_cong) (auto simp: image_iff dest: eq_key_imp_eq_value)

lemma update_courier_rounds_char:
  "update_courier_rounds table js sd =
     (table @ List.map_filter (spec_fold_in table) js,
      filter (\<lambda>r. spec_fold_in table r = None) js)"
proof -
  let ?frame = "zip [0..<length js] js"
  have g: "grown table []" by (simp add: grown_def)
  have d: "distinct (map fst ?frame)" by simp
  have m: "map snd ?frame = js" by simp
  have "update_loop (table @ []) ?frame ?frame =
     (table @ [] @ List.map_filter (spec_fold_in table) (map snd ?frame),
      filter (\<lambda>(l, r). l \<notin> fst ` {x \<in> set ?frame. spec_fold_in table (snd x) \<noteq> None}) ?frame)"
    using g by (rule update_loop_char)
  also have "filter (\<lambda>(l, r). l \<notin> fst ` {x \<in> set ?frame. spec_fold_in table (snd x) \<noteq> None}) ?frame
     = filter (\<lambda>(l, r). \<not> spec_fold_in table r \<noteq> None) ?frame"
    using d by (rule filter_labelled)
  finally have u: "update_loop table ?frame ?frame =
     (table @ List.map_filter (spec_fold_in table) js,
      filter (\<lambda>(l, r). spec_fold_in table r = None) ?frame)"
    by (simp only: m append_Nil append_Nil2 not_not)
  have "filter (\<lambda>r. spec_fold_in table r = None) (map snd ?frame)
      = map snd (filter ((\<lambda>r. spec_fold_in table r = None) \<circ> snd) ?frame)"
    by (rule filter_map)
  then have "map snd (filter (\<lambda>(l, r). spec_fold_in table r = None) ?frame)
      = filter (\<lambda>r. spec_fold_in table r = None) js"
    by (simp only: m comp_def case_prod_unfold)
  then show ?thesis
    unfolding update_courier_rounds_def Let_def u by (simp only: prod.case)
qed

text \<open>
  Claim C3. For every journey the first courier entry with the journey's postcode, in the
  order of the supplied table, decides: when its task is "Spare time" or
  "Deliver/Collect post" and its volume plus 0.036 is at most 5.3, a "Collect samples"
  entry of volume 0.036 with the journey's time and location fields and the matched
  entry's round and vehicle is appended and the journey leaves the journey set; every
  other journey stays as it is. With an empty courier table both outputs are the inputs.
\<close>

theorem update_courier_rounds_first_match:
  "update_courier_rounds table js sd =
     (table @ List.map_filter (spec_fold_in table) js,
      filter (\<lambda>r. spec_fold_in table r = None) js)
   \<and> update_courier_rounds [] js sd = ([], js)"
proof
  show "update_courier_rounds table js sd =
     (table @ List.map_filter (spec_fold_in table) js,
      filter (\<lambda>r. spec_fold_in table r = None) js)"
    by (rule update_courier_rounds_char)
  have "List.map_filter (spec_fold_in []) js = []"
    by (induction js) (simp_all add: spec_fold_in_def)
  moreover have "filter (\<lambda>r. spec_fold_in [] r = None) js = js"
    by (simp add: spec_fold_in_def)
  ultimately show "update_courier_rounds [] js sd = ([], js)"
    by (simp add: update_courier_rounds_char)
qed

theorem update_courier_rounds_first_match_witness:
  "update_courier_rounds [ex_entry 5.0, ex_entry 5.29]
      [ex_journey ''J1'' ''SO15 5SY'', ex_journey ''J2'' ''SO16 6YD''] []
     = ([ex_entry 5.0, ex_entry 5.29, ex_collected], [ex_journey ''J2'' ''SO16 6YD''])"
  using update_courier_rounds_first_match
      [of "[ex_entry 5.0, ex_entry 5.29]"
          "[ex_journey ''J1'' ''SO15 5SY'', ex_journey ''J2'' ''SO16 6YD'']" "[]"]
  by (simp add: spec_fold_in_def ex_entry_def ex_journey_def ex_collected_def py_eq_def)

text \<open>
  Claim C10. The entries of the supplied courier table stay as they are and in their
  order at the head of the returned table, new entries come after them, and the journeys
  returned are journeys of the input, unchanged and in their original order.
\<close>

theorem update_courier_rounds_frame:
  "prefix table (fst (update_courier_rounds table js sd))
   \<and> subseq (snd (update_courier_rounds table js sd)) js"
  by (simp add: update_courier_rounds_char)

theorem update_courier_rounds_frame_witness:
  "prefix [ex_entry 5.0]
     (fst (update_courier_rounds [ex_entry 5.0]
        [ex_journey ''J1'' ''SO16 6YD'', ex_journey ''J2'' ''SO15 5SY'', ex_journey ''J3'' ''SO16 6YD''] []))
   \<and> snd (update_courier_rounds [ex_entry 5.0]
        [ex_journey ''J1'' ''SO16 6YD'', ex_journey ''J2'' ''SO15 5SY'', ex_journey ''J3'' ''SO16 6YD''] [])
      = [ex_journey ''J1'' ''SO16 6YD'', ex_journey ''J3'' ''SO16 6YD'']"
proof -
  have "snd (update_courier_rounds [ex_entry 5.0]
        [ex_journey ''J1'' ''SO16 6YD'', ex_journey ''J2'' ''SO15 5SY'', ex_journey ''J3'' ''SO16 6YD''] [])
      = [ex_journey ''J1'' ''SO16 6YD'', ex_journey ''J3'' ''SO16 6YD'']"
    by (simp add: update_courier_rounds_char spec_fold_in_def
        ex_entry_def ex_journey_def py_eq_def)
  with update_courier_rounds_frame
      [of "[ex_entry 5.0]"
          "[ex_journey ''J1'' ''SO16 6YD'', ex_journey ''J2'' ''SO15 5SY'', ex_journey ''J3'' ''SO16 6YD'']" "[]"]
  show ?thesis by simp
qed

text \<open>
  Claim C1. The total volume of a round should never exceed 5.3 after an append. The
  test of the code reads the volume of the matched entry alone, and nothing adds the
  appended samples to it: round R1 of vehicle V1 stands at 5.26, two journeys at its
  postcode are both folded in, and the round then holds 5.332.
\<close>

theorem update_courier_rounds_overfills_round:
  "round_volume [ex_entry 5.26] (Str ''R1'') (Str ''V1'') = 5.26
   \<and> update_courier_rounds [ex_entry 5.26]
        [ex_journey ''J1'' ''SO15 5SY'', ex_journey ''J2'' ''SO15 5SY''] []
       = ([ex_entry 5.26, ex_collected, ex_collected], [])
   \<and> round_volume [ex_entry 5.26, ex_collected, ex_collected] (Str ''R1'') (Str ''V1'') = 5.332
   \<and> \<not> round_volume [ex_entry 5.26, ex_collected, ex_collected] (Str ''R1'') (Str ''V1'') \<le> 5.3"
  by (simp add: update_courier_rounds_def drop_label_def sample_volume_def round_volume_def
      ex_entry_def ex_journey_def ex_collected_def py_eq_def upt_rec)

section \<open>Properties of calculate\_total\_time\<close>

text \<open>On a frame whose rows all carry a duration, the loop adds the durations up.\<close>

lemma total_time_loop_sum:
  "\<forall>r \<in> set rows. \<exists>h m s. map_of r ''Time to Next Stop'' = Some (Time h m s) \<Longrightarrow>
   total_time_loop t rows =
     Inr (t + sum_list (map (\<lambda>r. seconds_of (the (map_of r ''Time to Next Stop''))) rows))"
  by (induction rows arbitrary: t) auto

lemma journey_row_no_duration: "map_of (journey_row j) ''Time to Next Stop'' = None"
  by (simp add: journey_row_def)

lemma calculate_total_time_journeys:
  "calculate_total_time (map journey_row (j # js)) vrd = Inl (KeyError (Str ''Time to Next Stop''))"
  by (simp add: calculate_total_time_def journey_row_no_duration)

text \<open>
  Claim C2. The aggregate should be the sum of the durations of the journeys that
  remain. The journeys frame has no column "Time to Next Stop" (the durations are in the
  transit table, which the function receives and never reads), so with one journey left
  after consolidation the function raises instead of returning a sum.
\<close>

theorem calculate_total_time_key_error:
  "update_courier_rounds [] [ex_journey ''J1'' ''SO16 6YD''] [] = ([], [ex_journey ''J1'' ''SO16 6YD''])
   \<and> calculate_total_time
        (map journey_row (snd (update_courier_rounds [] [ex_journey ''J1'' ''SO16 6YD''] [])))
        ex_transit
      = Inl (KeyError (Str ''Time to Next Stop''))"
  by (simp add: update_courier_rounds_def calculate_total_time_def journey_row_def)

section \<open>Properties of the transit graph and of the transit callback\<close>

lemma map_of_build_loop:
  "map_of (g_edges (build_loop rows G)) = map_of (g_edges G) ++ map_of (rev (chain_edges rows))"
proof (induction rows G rule: build_loop.induct)
  case (1 row next_row rest G)
  then show ?case
    by (auto simp: add_edge_def update_conv fun_eq_iff map_add_def split: option.splits)
qed simp_all

lemma set_chain_edges:
  "set (chain_edges rows) =
     {((t_postcode (rows ! i), t_postcode (rows ! Suc i)), time_to_next_stop (rows ! i)) | i.
        Suc i < length rows}"
proof (induction rows rule: chain_edges.induct)
  case (1 row next_row rest)
  show ?case (is "?L = ?R")
  proof (rule set_eqI)
    fix e
    have "e \<in> ?L \<longleftrightarrow>
       e = ((t_postcode row, t_postcode next_row), time_to_next_stop row)
       \<or> (\<exists>i. Suc i < length (next_row # rest) \<and>
           e = ((t_postcode ((next_row # rest) ! i), t_postcode ((next_row # rest) ! Suc i)),
                time_to_next_stop ((next_row # rest) ! i)))"
      using 1 by auto
    also have "\<dots> \<longleftrightarrow> e \<in> ?R"
    proof
      assume "e = ((t_postcode row, t_postcode next_row), time_to_next_stop row)
       \<or> (\<exists>i. Suc i < length (next_row # rest) \<and>
           e = ((t_postcode ((next_row # rest) ! i), t_postcode ((next_row # rest) ! Suc i)),
                time_to_next_stop ((next_row # rest) ! i)))"
      then show "e \<in> ?R"
      proof
        assume "e = ((t_postcode row, t_postcode next_row), time_to_next_stop row)"
        then have "Suc 0 < length (row # next_row # rest) \<and>
           e = ((t_postcode ((row # next_row # rest) ! 0), t_postcode ((row # next_row # rest) ! Suc 0)),
                time_to_next_stop ((row # next_row # rest) ! 0))" by simp
        then show ?thesis by blast
      next
        assume "\<exists>i. Suc i < length (next_row # rest) \<and>
           e = ((t_postcode ((next_row # rest) ! i), t_postcode ((next_row # rest) ! Suc i)),
                time_to_next_stop ((next_row # rest) ! i))"
        then obtain i where "Suc i < length (next_row # rest)"
           "e = ((t_postcode ((next_row # rest) ! i), t_postcode ((next_row # rest) ! Suc i)),
                time_to_next_stop ((next_row # rest) ! i))" by blast
        then have "Suc (Suc i) < length (row # next_row # rest) \<and>
           e = ((t_postcode ((row # next_row # rest) ! Suc i), t_postcode ((row # next_row # rest) ! Suc (Suc i))),
                time_to_next_stop ((row # next_row # rest) ! Suc i))" by simp
        then show ?thesis by blast
      qed
    next
      assume "e \<in> ?R"
      then obtain i where i: "Suc i < length (row # next_row # rest)"
        "e = ((t_postcode ((row # next_row # rest) ! i), t_postcode ((row # next_row # rest) ! Suc i)),
                time_to_next_stop ((row # next_row # rest) ! i))" by blast
      show "e = ((t_postcode row, t_postcode next_row), time_to_next_stop row)
       \<or> (\<exists>i. Suc i < length (next_row # rest) \<and>
           e = ((t_postcode ((next_row # rest) ! i), t_postcode ((next_row # rest) ! Suc i)),
                time_to_next_stop ((next_row # rest) ! i)))"
      proof (cases i)
        case 0
        with i show ?thesis by simp
      next
        case (Suc k)
        with i have "Suc k < length (next_row # rest) \<and>
           e = ((t_postcode ((next_row # rest) ! k), t_postcode ((next_row # rest) ! Suc k)),
                time_to_next_stop ((next_row # rest) ! k))" by simp
        then show ?thesis by blast
      qed
    qed
    finally show "e \<in> ?L \<longleftrightarrow> e \<in> ?R" .
  qed
qed simp_all

lemma chain_edges_keys:
  "((a, b), w) \<in> set (chain_edges rows) \<Longrightarrow> a \<in> t_postcode ` set rows"
  by (induction rows rule: chain_edges.induct) auto

lemma distinct_chain_edges:
  "distinct (map t_postcode rows) \<Longrightarrow> distinct (map fst (chain_edges rows))"
proof (induction rows rule: chain_edges.induct)
  case (1 row next_row rest)
  have "(t_postcode row, t_postcode next_row) \<notin> fst ` set (chain_edges (next_row # rest))"
  proof
    assume "(t_postcode row, t_postcode next_row) \<in> fst ` set (chain_edges (next_row # rest))"
    then obtain w where
      "((t_postcode row, t_postcode next_row), w) \<in> set (chain_edges (next_row # rest))"
      by auto
    then have "t_postcode row \<in> t_postcode ` set (next_row # rest)"
      by (rule chain_edges_keys)
    with 1(2) show False by auto
  qed
  with 1 show ?case by simp
qed simp_all

lemma map_of_rev_distinct:
  "distinct (map fst xs) \<Longrightarrow> map_of (rev xs) = map_of xs"
  by (rule map_of_inject_set[THEN iffD2]) (simp_all add: rev_map[symmetric])

text \<open>
  With distinct postcodes the graph has exactly the edges between consecutive stops,
  each weighted by the cell of its source stop.
\<close>

lemma map_of_build_graph:
  assumes "distinct (map t_postcode vrd)"
  shows "map_of (g_edges (build_graph vrd)) (a, b) = Some w \<longleftrightarrow>
     (\<exists>i. Suc i < length vrd \<and> t_postcode (vrd ! i) = a \<and> t_postcode (vrd ! Suc i) = b
        \<and> time_to_next_stop (vrd ! i) = w)"
proof -
  have d: "distinct (map fst (chain_edges vrd))"
    using assms by (rule distinct_chain_edges)
  have "map_of (g_edges (build_graph vrd)) = map_of (chain_edges vrd)"
    by (simp add: build_graph_def map_of_build_loop map_of_rev_distinct[OF d])
  then have "map_of (g_edges (build_graph vrd)) (a, b) = Some w
      \<longleftrightarrow> ((a, b), w) \<in> set (chain_edges vrd)"
    using d by simp
  also have "\<dots> \<longleftrightarrow> (\<exists>i. Suc i < length vrd \<and> t_postcode (vrd ! i) = a \<and> t_postcode (vrd ! Suc i) = b
        \<and> time_to_next_stop (vrd ! i) = w)"
    unfolding set_chain_edges by auto
  finally show ?thesis .
qed





section \<open>The concrete routes\<close>

lemma string_of_nat_1: "string_of_nat (Suc 0) = ''1''"
  by code_simp

lemma string_of_nat_2: "string_of_nat (Suc (Suc 0)) = ''2''"
  by code_simp

lemma nodes_ex_transit: "length (g_nodes (build_graph ex_transit)) = 4"
  by (simp add: build_graph_def ex_transit_def ex_stop_def add_edge_def add_node_def)

lemma nodes_ex_transit_blank: "length (g_nodes (build_graph ex_transit_blank)) = 4"
  by (simp add: build_graph_def ex_transit_blank_def ex_stop_def add_edge_def add_node_def)

lemma nodes_ex_transit_repeat: "length (g_nodes (build_graph ex_transit_repeat)) = 2"
  by (simp add: build_graph_def ex_transit_repeat_def ex_stop_def add_edge_def add_node_def)

lemma walk_van1:
  "walk_route (ex_routing (Some ex_next) 4 2) (Some ex_next) ex_samples ex_transit 0 0 0 []
     = Some (Inr [ex_assigned ''S1'' ''Van 1'' (1/6), ex_assigned ''S2'' ''Van 1'' (5/12)])"
  by (simp add: walk_route.simps ex_routing_def ex_next_def visit_def iloc_def ex_samples_def
      ex_sample_def ex_transit_def ex_stop_def ex_assigned_def timedelta_def hours_def
      string_of_nat_1 Let_def)

lemma walk_van2:
  "walk_route (ex_routing (Some ex_next) 4 2) (Some ex_next) ex_samples ex_transit 1 4 0 []
     = Some (Inr [ex_assigned ''S3'' ''Van 2'' (1/12)])"
  by (simp add: walk_route.simps ex_routing_def ex_next_def visit_def iloc_def ex_samples_def
      ex_sample_def ex_transit_def ex_stop_def ex_assigned_def timedelta_def hours_def
      string_of_nat_2 Let_def)

section \<open>Properties of the journey extraction\<close>

lemma seconds_of_nonneg: "0 \<le> seconds_of c"
  by (cases c) (simp_all add: timedelta_def)

lemma visit_Inr:
  assumes "visit sd vrd van node clock = Inr (clock', j)"
  shows "clock' = clock + seconds_of (time_to_next_stop (vrd ! (node - 1)))"
    and "time_of_collection j = hours clock'"
    and "clock \<le> clock'"
proof -
  show 1: "clock' = clock + seconds_of (time_to_next_stop (vrd ! (node - 1)))"
    using assms
    by (auto simp: visit_def iloc_def Let_def split: if_splits cell.splits)
  show "time_of_collection j = hours clock'"
    using assms
    by (auto simp: visit_def iloc_def Let_def split: if_splits cell.splits)
  show "clock \<le> clock'"
    using 1 seconds_of_nonneg[of "time_to_next_stop (vrd ! (node - 1))"] by simp
qed

lemma walk_on_route:
  "on_route R nxt index is \<Longrightarrow>
   walk_route R (Some nxt) sd vrd van index clock js =
     Some (visit_all sd vrd van clock js (filter (\<lambda>n. n \<noteq> 0) (map (IndexToNode R) is)))"
proof (induction "is" arbitrary: index clock js)
  case Nil
  then show ?case by (subst walk_route.simps) simp
next
  case (Cons i rest)
  then have i: "i = index" and ne: "\<not> IsEnd R index"
    and r: "on_route R nxt (nxt index) rest" by simp_all
  note IH = Cons.IH[OF r]
  show ?case
  proof (cases "IndexToNode R index = 0")
    case True
    then show ?thesis
      by (subst walk_route.simps) (simp add: ne i IH)
  next
    case False
    show ?thesis
    proof (cases "visit sd vrd van (IndexToNode R index) clock")
      case (Inl e)
      then show ?thesis
        by (subst walk_route.simps) (simp add: ne i False)
    next
      case (Inr p)
      then show ?thesis
        by (subst walk_route.simps) (simp add: ne i False IH split: prod.splits)
    qed
  qed
qed

lemma visit_all_times:
  "visit_all sd vrd van clock js ns = Inr js' \<Longrightarrow>
   \<exists>new. js' = js @ new \<and> map time_of_collection new = chain_times vrd clock ns"
proof (induction ns arbitrary: clock js)
  case Nil
  then show ?case by simp
next
  case (Cons n ns)
  from Cons.prems obtain clock' j where v: "visit sd vrd van n clock = Inr (clock', j)"
    and rest: "visit_all sd vrd van clock' (js @ [j]) ns = Inr js'"
    by (auto split: sum.splits)
  from Cons.IH[OF rest] obtain new where new: "js' = (js @ [j]) @ new"
    "map time_of_collection new = chain_times vrd clock' ns" by blast
  have "js' = js @ (j # new)" using new by simp
  moreover have "map time_of_collection (j # new) = chain_times vrd clock (n # ns)"
    using new visit_Inr(1,2)[OF v] by (simp add: Let_def)
  ultimately show ?case by blast
qed

lemma walk_route_sorted_aux:
  "walk_route R sol sd vrd van index clock js0 = Some y \<Longrightarrow>
   (case y of Inl e \<Rightarrow> True
    | Inr js \<Rightarrow> \<exists>new. js = js0 @ new \<and> sorted (map time_of_collection new)
        \<and> (\<forall>j \<in> set new. hours clock \<le> time_of_collection j))"
proof (induction R sol sd vrd van index clock js0 y rule: walk_route.raw_induct[rotated 1, consumes 1])
  case (1 walk R sol sd vrd van index clock js0 y)
  show ?case
  proof (cases "IsEnd R index")
    case True
    with 1(2) show ?thesis by auto
  next
    case ne: False
    show ?thesis
    proof (cases sol)
      case None
      with 1(2) ne show ?thesis
        by (auto simp: Let_def split: if_splits sum.splits prod.splits)
    next
      case (Some nxt)
      show ?thesis
      proof (cases "IndexToNode R index = 0")
        case True
        with 1(2) ne Some have "walk R sol sd vrd van (nxt index) clock js0 = Some y"
          by (simp add: Let_def)
        then show ?thesis by (rule 1(1))
      next
        case False
        show ?thesis
        proof (cases "visit sd vrd van (IndexToNode R index) clock")
          case (Inl e)
          with 1(2) ne Some False show ?thesis by (auto simp: Let_def)
        next
          case (Inr p)
          obtain clock' j where p: "p = (clock', j)" by (cases p)
          note v = visit_Inr[OF Inr[unfolded p]]
          from 1(2) ne Some False Inr p
          have "walk R sol sd vrd van (nxt index) clock' (js0 @ [j]) = Some y"
            by (simp add: Let_def)
          from 1(1)[OF this] show ?thesis
          proof (cases y)
            case (Inl e)
            then show ?thesis by simp
          next
            case (Inr js)
            with \<open>case y of Inl e \<Rightarrow> True | Inr js \<Rightarrow> _ js\<close>
            obtain new where new: "js = (js0 @ [j]) @ new"
              "sorted (map time_of_collection new)"
              "\<forall>j \<in> set new. hours clock' \<le> time_of_collection j"
              by auto
            have le: "hours clock \<le> hours clock'"
              using v(3) by (simp add: hours_def)
            have "js = js0 @ (j # new)" using new(1) by simp
            moreover have "sorted (map time_of_collection (j # new))"
              using new(2,3) v(2) by simp
            moreover have "\<forall>j' \<in> set (j # new). hours clock \<le> time_of_collection j'"
              using new(3) v(2) le by auto
            ultimately show ?thesis unfolding Inr by (simp only: sum.case) blast
          qed
        qed
      qed
    qed
  qed
qed

text \<open>
  Claim C8, as amended. Building the graph reports no error: every stop but the last
  contributes the edge to its successor, weighted by its duration cell as it is, blank
  or not, and the last stop contributes no edge. A blank duration is met only by the
  journey extraction, after the solver has run, as the \<^verbatim>\<open>AttributeError\<close> of reading
  \<^verbatim>\<open>hour\<close> from the blank cell at the node that follows the stop.
\<close>

theorem build_graph_keeps_blank_durations:
  assumes "distinct (map t_postcode vrd)" and "Suc i < length vrd"
  shows "map_of (g_edges (build_graph vrd)) (t_postcode (vrd ! i), t_postcode (vrd ! Suc i))
           = Some (time_to_next_stop (vrd ! i))
       \<and> map_of (g_edges (build_graph vrd)) (t_postcode (last vrd), v) = None
       \<and> (time_to_next_stop (vrd ! i) = Blank \<and> i < length sd \<longrightarrow>
            visit sd vrd van (Suc i) clock = Inl (AttributeError ''hour''))"
proof (intro conjI)
  show "map_of (g_edges (build_graph vrd)) (t_postcode (vrd ! i), t_postcode (vrd ! Suc i))
           = Some (time_to_next_stop (vrd ! i))"
    using assms(2) by (auto simp: map_of_build_graph[OF assms(1)])
  show "map_of (g_edges (build_graph vrd)) (t_postcode (last vrd), v) = None"
  proof (rule ccontr)
    assume "map_of (g_edges (build_graph vrd)) (t_postcode (last vrd), v) \<noteq> None"
    then obtain w where "map_of (g_edges (build_graph vrd)) (t_postcode (last vrd), v) = Some w"
      by auto
    then obtain k where k: "Suc k < length vrd" "t_postcode (vrd ! k) = t_postcode (last vrd)"
      by (auto simp: map_of_build_graph[OF assms(1)])
    from assms(2) have "vrd \<noteq> []" by auto
    then have "last vrd = vrd ! (length vrd - 1)"
      by (rule last_conv_nth)
    with k have e: "map t_postcode vrd ! k = map t_postcode vrd ! (length vrd - 1)" by simp
    have "k < length (map t_postcode vrd)" "length vrd - 1 < length (map t_postcode vrd)"
      using k(1) by simp_all
    with assms(1) e have "k = length vrd - 1"
      using nth_eq_iff_index_eq by blast
    with k(1) show False by simp
  qed
  show "time_to_next_stop (vrd ! i) = Blank \<and> i < length sd \<longrightarrow>
            visit sd vrd van (Suc i) clock = Inl (AttributeError ''hour'')"
    using assms(2) by (simp add: visit_def iloc_def)
qed

lemma distinct_ex_transit_blank: "distinct (map t_postcode ex_transit_blank)"
  by (simp add: ex_transit_blank_def ex_stop_def)

theorem build_graph_keeps_blank_durations_witness:
  "distinct (map t_postcode ex_transit_blank) \<and> Suc 0 < length ex_transit_blank
   \<and> map_of (g_edges (build_graph ex_transit_blank)) (Str ''SO16 6YD'', Str ''SO15 5SY'') = Some Blank
   \<and> map_of (g_edges (build_graph ex_transit_blank)) (Str ''SO17 1BJ'', Str ''SO16 6YD'') = None
   \<and> visit ex_samples ex_transit_blank 0 (Suc 0) 0 = Inl (AttributeError ''hour'')"
proof -
  have l: "Suc 0 < length ex_transit_blank" by (simp add: ex_transit_blank_def)
  show ?thesis
    using build_graph_keeps_blank_durations[OF distinct_ex_transit_blank l,
        of "Str ''SO16 6YD''" ex_samples 0 0] distinct_ex_transit_blank l
    by (simp add: ex_transit_blank_def ex_stop_def ex_samples_def)
qed

text \<open>
  The claim as stated fails. A table that repeats two postcodes and has a blank duration
  on its third stop gives a graph of two nodes, and the pipeline returns a journey. With
  the first duration blank the error arises in the extraction, from the route the solver
  returned; and on the same table a solver without solution makes the pipeline fail on
  \<^verbatim>\<open>solution.Value\<close>, the blank duration never being read: the solver is consulted first.
\<close>

theorem missing_duration_not_rejected:
  "assign_journeys (ex_routing (Some ex_next)) ex_samples ex_transit_repeat 1
     = Some (Inr [ex_assigned ''S1'' ''Van 1'' (1/6)])
   \<and> assign_journeys (ex_routing (Some ex_next)) ex_samples ex_transit_blank 2
     = Some (Inl (AttributeError ''hour''))
   \<and> assign_journeys (ex_routing None) ex_samples ex_transit_blank 2
     = Some (Inl (AttributeError ''Value''))"
proof (intro conjI)
  show "assign_journeys (ex_routing (Some ex_next)) ex_samples ex_transit_repeat 1
     = Some (Inr [ex_assigned ''S1'' ''Van 1'' (1/6)])"
    by (simp add: assign_journeys_def build_graph_def add_edge_def add_node_def walk_route.simps ex_routing_def
        ex_next_def visit_def iloc_def ex_samples_def ex_sample_def ex_transit_repeat_def
        ex_stop_def ex_assigned_def timedelta_def hours_def string_of_nat_1 Let_def)
  show "assign_journeys (ex_routing (Some ex_next)) ex_samples ex_transit_blank 2
     = Some (Inl (AttributeError ''hour''))"
    by (simp add: assign_journeys_def build_graph_def add_edge_def add_node_def walk_route.simps ex_routing_def
        ex_next_def visit_def iloc_def ex_samples_def ex_sample_def ex_transit_blank_def
        ex_stop_def upt_rec Let_def)
  show "assign_journeys (ex_routing None) ex_samples ex_transit_blank 2
     = Some (Inl (AttributeError ''Value''))"
    by (simp add: assign_journeys_def build_graph_def add_edge_def add_node_def
        ex_transit_blank_def ex_stop_def walk_route.simps ex_routing_def upt_rec Let_def)
qed

text \<open>
  Claim C6. The journeys that the loop of one van appends have collection times that
  never decrease in visit order.
\<close>

theorem collection_times_nondecreasing:
  assumes "walk_route R sol sd vrd van (Start R van) 0 js0 = Some (Inr js)"
  shows "\<exists>new. js = js0 @ new \<and> sorted (map time_of_collection new)"
  using walk_route_sorted_aux[OF assms] by auto

theorem collection_times_nondecreasing_witness:
  "walk_route (ex_routing (Some ex_next) 4 2) (Some ex_next) ex_samples ex_transit 0
      (Start (ex_routing (Some ex_next) 4 2) 0) 0 []
     = Some (Inr [ex_assigned ''S1'' ''Van 1'' (1/6), ex_assigned ''S2'' ''Van 1'' (5/12)])
   \<and> sorted (map time_of_collection
        [ex_assigned ''S1'' ''Van 1'' (1/6), ex_assigned ''S2'' ''Van 1'' (5/12)])"
proof -
  have s: "Start (ex_routing (Some ex_next) 4 2) 0 = 0"
    by (simp add: ex_routing_def)
  have run: "walk_route (ex_routing (Some ex_next) 4 2) (Some ex_next) ex_samples ex_transit 0
      (Start (ex_routing (Some ex_next) 4 2) 0) 0 []
     = Some (Inr [ex_assigned ''S1'' ''Van 1'' (1/6), ex_assigned ''S2'' ''Van 1'' (5/12)])"
    unfolding s by (rule walk_van1)
  from collection_times_nondecreasing[OF run] run show ?thesis by simp
qed

text \<open>
  The loop over the vans, on finite routes: every van starts from a clock of zero,
  whatever the vans before it have accumulated and emitted.
\<close>

lemma vans_loop_times:
  assumes "\<forall>v \<in> set vans. on_route R nxt (Start R v) (routes v)"
  shows "\<exists>r. vans_loop R (Some nxt) sd vrd vans js0 = Some r
     \<and> (case r of Inl e \<Rightarrow> True
        | Inr js \<Rightarrow> \<exists>new. js = js0 @ new \<and> map time_of_collection new =
            concat (map (\<lambda>v. chain_times vrd 0
              (filter (\<lambda>n. n \<noteq> 0) (map (IndexToNode R) (routes v)))) vans))"
  using assms
proof (induction vans arbitrary: js0)
  case Nil
  then show ?case by simp
next
  case (Cons v vans)
  let ?ns = "filter (\<lambda>n. n \<noteq> 0) (map (IndexToNode R) (routes v))"
  from Cons.prems have r: "on_route R nxt (Start R v) (routes v)"
    and rest: "\<forall>v \<in> set vans. on_route R nxt (Start R v) (routes v)" by simp_all
  have w: "walk_route R (Some nxt) sd vrd v (Start R v) 0 js0
      = Some (visit_all sd vrd v 0 js0 ?ns)"
    using r by (rule walk_on_route)
  show ?case
  proof (cases "visit_all sd vrd v 0 js0 ?ns")
    case (Inl e)
    then show ?thesis by (simp only: vans_loop.simps w option.case sum.case) simp
  next
    case (Inr js1)
    from visit_all_times[OF Inr] obtain new1 where new1: "js1 = js0 @ new1"
      "map time_of_collection new1 = chain_times vrd 0 ?ns" by blast
    from Cons.IH[OF rest, of js1] obtain r' where r': "vans_loop R (Some nxt) sd vrd vans js1 = Some r'"
      "case r' of Inl e \<Rightarrow> True
        | Inr js \<Rightarrow> \<exists>new. js = js1 @ new \<and> map time_of_collection new =
            concat (map (\<lambda>v. chain_times vrd 0
              (filter (\<lambda>n. n \<noteq> 0) (map (IndexToNode R) (routes v)))) vans)"
      by blast
    have v: "vans_loop R (Some nxt) sd vrd (v # vans) js0 = Some r'"
      by (simp only: vans_loop.simps w Inr option.case sum.case r'(1))
    show ?thesis
    proof (cases r')
      case (Inl e)
      with v show ?thesis by simp
    next
      case (Inr js)
      with r'(2) obtain new where new: "js = js1 @ new"
        "map time_of_collection new =
            concat (map (\<lambda>v. chain_times vrd 0
              (filter (\<lambda>n. n \<noteq> 0) (map (IndexToNode R) (routes v)))) vans)"
        by auto
      have "js = js0 @ (new1 @ new)" using new(1) new1(1) by simp
      moreover have "map time_of_collection (new1 @ new) =
            concat (map (\<lambda>v. chain_times vrd 0
              (filter (\<lambda>n. n \<noteq> 0) (map (IndexToNode R) (routes v)))) (v # vans))"
        using new(2) new1(2) by simp
      ultimately have "\<exists>new'. js = js0 @ new' \<and> map time_of_collection new' =
            concat (map (\<lambda>v. chain_times vrd 0
              (filter (\<lambda>n. n \<noteq> 0) (map (IndexToNode R) (routes v)))) (v # vans))"
        by blast
      with v Inr show ?thesis by simp
    qed
  qed
qed

text \<open>
  Claim C7, as amended. When the solver returns a solution whose routes are finite,
  \<^verbatim>\<open>assign_journeys\<close> returns. For every van the accumulator starts at zero at the van's
  depot start, and at each visited node \<open>n\<close> other than the depot it adds the duration
  of row \<open>n - 1\<close> of the transit table, the stop before \<open>n\<close> in the input order; the
  times of collection are the accumulated times in hours, van after van.
\<close>

theorem collection_time_accumulator:
  assumes "R = ortools (length (g_nodes (build_graph vrd))) num_vans"
    and "SolveWithParameters R (distance_callback (IndexToNode R) (build_graph vrd)) = Some nxt"
    and "\<forall>v \<in> set [0..<num_vans]. on_route R nxt (Start R v) (routes v)"
  shows "\<exists>r. assign_journeys ortools sd vrd num_vans = Some r
     \<and> (case r of Inl e \<Rightarrow> True
        | Inr js \<Rightarrow> map time_of_collection js =
            concat (map (\<lambda>v. chain_times vrd 0
              (filter (\<lambda>n. n \<noteq> 0) (map (IndexToNode R) (routes v)))) [0..<num_vans]))"
proof -
  have a: "assign_journeys ortools sd vrd num_vans
      = vans_loop R (Some nxt) sd vrd [0..<num_vans] []"
    unfolding assign_journeys_def Let_def assms(1)[symmetric] assms(2) ..
  from vans_loop_times[OF assms(3), of sd vrd "[]"]
  obtain r where r: "vans_loop R (Some nxt) sd vrd [0..<num_vans] [] = Some r"
    "case r of Inl e \<Rightarrow> True
        | Inr js \<Rightarrow> \<exists>new. js = [] @ new \<and> map time_of_collection new =
            concat (map (\<lambda>v. chain_times vrd 0
              (filter (\<lambda>n. n \<noteq> 0) (map (IndexToNode R) (routes v)))) [0..<num_vans])"
    by blast
  have "case r of Inl e \<Rightarrow> True
        | Inr js \<Rightarrow> map time_of_collection js =
            concat (map (\<lambda>v. chain_times vrd 0
              (filter (\<lambda>n. n \<noteq> 0) (map (IndexToNode R) (routes v)))) [0..<num_vans])"
    using r(2) by (cases r) auto
  with r(1) a show ?thesis by simp
qed

lemma assign_ex:
  "assign_journeys (ex_routing (Some ex_next)) ex_samples ex_transit 2
     = Some (Inr [ex_assigned ''S1'' ''Van 1'' (1/6), ex_assigned ''S2'' ''Van 1'' (5/12),
                  ex_assigned ''S3'' ''Van 2'' (1/12)])"
  by (simp add: assign_journeys_def build_graph_def add_edge_def add_node_def walk_route.simps
      ex_routing_def ex_next_def visit_def iloc_def ex_samples_def ex_sample_def ex_transit_def
      ex_stop_def ex_assigned_def timedelta_def hours_def string_of_nat_1 string_of_nat_2
      upt_rec Let_def)

theorem collection_time_accumulator_witness:
  "SolveWithParameters (ex_routing (Some ex_next) (length (g_nodes (build_graph ex_transit))) 2)
      (distance_callback
        (IndexToNode (ex_routing (Some ex_next) (length (g_nodes (build_graph ex_transit))) 2))
        (build_graph ex_transit)) = Some ex_next
   \<and> on_route (ex_routing (Some ex_next) 4 2) ex_next
        (Start (ex_routing (Some ex_next) 4 2) 0) [0, 1, 2]
   \<and> on_route (ex_routing (Some ex_next) 4 2) ex_next
        (Start (ex_routing (Some ex_next) 4 2) 1) [4, 3]
   \<and> assign_journeys (ex_routing (Some ex_next)) ex_samples ex_transit 2
       = Some (Inr [ex_assigned ''S1'' ''Van 1'' (1/6), ex_assigned ''S2'' ''Van 1'' (5/12),
                    ex_assigned ''S3'' ''Van 2'' (1/12)])
   \<and> chain_times ex_transit 0 [1, 2] @ chain_times ex_transit 0 [3] = [1/6, 5/12, 1/12]"
proof -
  let ?R = "ex_routing (Some ex_next) (length (g_nodes (build_graph ex_transit))) 2"
  let ?routes = "\<lambda>v::nat. if v = 0 then [0, 1, 2] else [4, 3::nat]"
  have n: "length (g_nodes (build_graph ex_transit)) = 4" by (rule nodes_ex_transit)
  have 1: "?R = ex_routing (Some ex_next) (length (g_nodes (build_graph ex_transit))) 2" ..
  have 2: "SolveWithParameters ?R (distance_callback (IndexToNode ?R) (build_graph ex_transit))
      = Some ex_next"
    by (simp add: ex_routing_def)
  have r0: "on_route (ex_routing (Some ex_next) 4 2) ex_next
        (Start (ex_routing (Some ex_next) 4 2) 0) [0, 1, 2]"
    by (simp add: ex_routing_def ex_next_def)
  have s1: "Start (ex_routing (Some ex_next) 4 2) 1 = 4"
    by (simp add: ex_routing_def)
  have r1: "on_route (ex_routing (Some ex_next) 4 2) ex_next
        (Start (ex_routing (Some ex_next) 4 2) 1) [4, 3]"
    unfolding s1 by (simp add: ex_routing_def ex_next_def)
  have 3: "\<forall>v \<in> set [0..<2]. on_route ?R ex_next (Start ?R v) (?routes v)"
    unfolding n by (simp add: upt_rec ex_routing_def ex_next_def)
  have c: "chain_times ex_transit 0 [1, 2] @ chain_times ex_transit 0 [3] = [1/6, 5/12, 1/12]"
    by (simp add: ex_transit_def ex_stop_def timedelta_def hours_def)
  from collection_time_accumulator[where R = "?R" and ortools = "ex_routing (Some ex_next)"
      and vrd = ex_transit and num_vans = 2 and nxt = ex_next and routes = "?routes"
      and sd = ex_samples, OF 1 2 3] 2 r0 r1 c assign_ex
  show ?thesis by blast
qed

text \<open>
  The claim as stated fails where a route leaves the input order. Van 2 drives from the
  depot to node 3: the stop just departed is the depot, with 0:10 to its next stop, one
  sixth of an hour; the code adds the 0:05 of row 2 and reports one twelfth.
\<close>

theorem collection_time_not_departed_stop:
  "walk_route (ex_routing (Some ex_next) 4 2) (Some ex_next) ex_samples ex_transit 1
        (Start (ex_routing (Some ex_next) 4 2) 1) 0 []
       = Some (Inr [ex_assigned ''S3'' ''Van 2'' (1/12)])
   \<and> map time_of_collection [ex_assigned ''S3'' ''Van 2'' (1/12)] = [1/12]
   \<and> spec_times ex_transit 0 0 [3] = [1/6]
   \<and> [1/12] \<noteq> [1/6 :: real]"
proof -
  have s: "Start (ex_routing (Some ex_next) 4 2) 1 = 4"
    by (simp add: ex_routing_def)
  have w: "walk_route (ex_routing (Some ex_next) 4 2) (Some ex_next) ex_samples ex_transit 1
        (Start (ex_routing (Some ex_next) 4 2) 1) 0 []
       = Some (Inr [ex_assigned ''S3'' ''Van 2'' (1/12)])"
    unfolding s by (rule walk_van2)
  have t: "map time_of_collection [ex_assigned ''S3'' ''Van 2'' (1/12)] = [1/12]"
    by (simp add: ex_assigned_def)
  have p: "spec_times ex_transit 0 0 [3] = [1/6]"
    by (simp add: ex_transit_def ex_stop_def timedelta_def hours_def)
  have n: "[1/12] \<noteq> [1/6 :: real]" by simp
  from w t p n show ?thesis by blast
qed

text \<open>Without a solution the loop of a van fails at its first index.\<close>

lemma walk_route_no_solution:
  assumes "\<not> IsEnd R index"
  shows "\<exists>e. walk_route R None sd vrd van index clock js = Some (Inl e)"
  using assms
  by (subst walk_route.simps) (auto simp: Let_def split: sum.splits prod.splits)

lemma walk_route_no_solution_depot:
  assumes "\<not> IsEnd R index" and "IndexToNode R index = 0"
  shows "walk_route R None sd vrd van index clock js = Some (Inl (AttributeError ''Value''))"
  using assms by (subst walk_route.simps) simp

text \<open>
  Claim C9, as amended. When the solver returns no solution and there is at least one
  van, whose route is not at its end, the pipeline fails and returns no journeys, none
  partially emitted. The code never tests the solution and has no assignment error of
  its own: on a route that starts at the depot the failure is the \<^verbatim>\<open>AttributeError\<close>
  that \<^verbatim>\<open>solution.Value\<close> raises on the missing solution.
\<close>

theorem no_solution_fails:
  assumes "0 < num_vans"
    and "R = ortools (length (g_nodes (build_graph vrd))) num_vans"
    and "SolveWithParameters R (distance_callback (IndexToNode R) (build_graph vrd)) = None"
    and "\<not> IsEnd R (Start R 0)"
  shows "(\<exists>e. assign_journeys ortools sd vrd num_vans = Some (Inl e))
     \<and> (IndexToNode R (Start R 0) = 0 \<longrightarrow>
          assign_journeys ortools sd vrd num_vans = Some (Inl (AttributeError ''Value'')))"
proof -
  from assms(1) have u: "[0..<num_vans] = 0 # [Suc 0..<num_vans]"
    by (simp add: upt_conv_Cons)
  have "assign_journeys ortools sd vrd num_vans
      = vans_loop R None sd vrd [0..<num_vans] []"
    unfolding assign_journeys_def Let_def assms(2)[symmetric] assms(3) ..
  then have a: "assign_journeys ortools sd vrd num_vans
      = vans_loop R None sd vrd (0 # [Suc 0..<num_vans]) []"
    by (simp only: u)
  from walk_route_no_solution[OF assms(4)]
  obtain e where "walk_route R None sd vrd 0 (Start R 0) 0 [] = Some (Inl e)" by blast
  then have 1: "assign_journeys ortools sd vrd num_vans = Some (Inl e)"
    by (simp add: a)
  have 2: "assign_journeys ortools sd vrd num_vans = Some (Inl (AttributeError ''Value''))"
    if "IndexToNode R (Start R 0) = 0"
    using walk_route_no_solution_depot[OF assms(4) that] by (simp add: a)
  from 1 2 show ?thesis by blast
qed

theorem no_solution_fails_witness:
  "(0::nat) < 2
   \<and> SolveWithParameters (ex_routing None (length (g_nodes (build_graph ex_transit))) 2)
        (distance_callback
           (IndexToNode (ex_routing None (length (g_nodes (build_graph ex_transit))) 2))
           (build_graph ex_transit)) = None
   \<and> \<not> IsEnd (ex_routing None (length (g_nodes (build_graph ex_transit))) 2)
          (Start (ex_routing None (length (g_nodes (build_graph ex_transit))) 2) 0)
   \<and> assign_journeys (ex_routing None) ex_samples ex_transit 2
       = Some (Inl (AttributeError ''Value''))"
proof -
  let ?R = "ex_routing None (length (g_nodes (build_graph ex_transit))) 2"
  have 1: "(0::nat) < 2" by simp
  have 3: "SolveWithParameters ?R (distance_callback (IndexToNode ?R) (build_graph ex_transit)) = None"
    by (simp add: ex_routing_def)
  have 4: "\<not> IsEnd ?R (Start ?R 0)"
    by (simp add: ex_routing_def nodes_ex_transit)
  have 5: "IndexToNode ?R (Start ?R 0) = 0"
    by (simp add: ex_routing_def)
  have 2: "?R = ex_routing None (length (g_nodes (build_graph ex_transit))) 2" ..
  from no_solution_fails[where R = "?R" and ortools = "ex_routing None" and vrd = ex_transit
      and num_vans = 2 and sd = ex_samples, OF 1 2 3 4] 1 3 4 5
  show ?thesis by blast
qed

text \<open>
  The claim as stated fails: without a solution the pipeline does not report an
  assignment error, it stops on the attribute \<^verbatim>\<open>Value\<close> that \<^verbatim>\<open>None\<close> does not have.
\<close>

theorem no_solution_attribute_error:
  "assign_journeys (ex_routing None) ex_samples ex_transit 1
     = Some (Inl (AttributeError ''Value''))"
  by (simp add: assign_journeys_def build_graph_def add_edge_def add_node_def
      ex_transit_def ex_stop_def walk_route.simps ex_routing_def Let_def)

end
